theory Spec2Isabelle
  imports Main "HOL-Library.List_Lexorder"
begin

section \<open>Python values used by the generator\<close>

text \<open>
  A Python \<^verbatim>\<open>str\<close> is a sequence of Unicode code points; \<^verbatim>\<open>ord(c)\<close> is the code point
  and \<^verbatim>\<open>len\<close> counts code points. Strings are compared code point by code point, a proper
  prefix being smaller, which is the lexicographic order on lists.
\<close>

type_synonym pystr = "nat list"

definition lit :: "string \<Rightarrow> pystr" where
  "lit cs = map (of_char :: char \<Rightarrow> nat) cs"

definition is_ascii :: "pystr \<Rightarrow> bool" where
  "is_ascii w = list_all (\<lambda>c. c < 128) w"

definition ascii_isupper :: "nat \<Rightarrow> bool" where
  "ascii_isupper c = (65 \<le> c \<and> c \<le> 90)"

definition ascii_islower :: "nat \<Rightarrow> bool" where
  "ascii_islower c = (97 \<le> c \<and> c \<le> 122)"

definition ascii_isdigit :: "nat \<Rightarrow> bool" where
  "ascii_isdigit c = (48 \<le> c \<and> c \<le> 57)"

definition ascii_isalnum :: "nat \<Rightarrow> bool" where
  "ascii_isalnum c = (ascii_isupper c \<or> ascii_islower c \<or> ascii_isdigit c)"

definition ascii_lower :: "nat \<Rightarrow> nat" where
  "ascii_lower c = (if ascii_isupper c then c + 32 else c)"

definition ascii_upper :: "nat \<Rightarrow> nat" where
  "ascii_upper c = (if ascii_islower c then c - 32 else c)"

text \<open>
  The string methods the generator calls are built into the interpreter. On code points
  below 128 they are fixed and written out here. On other code points they read the
  Unicode character database of the interpreter, which is no part of the repository: it
  is a parameter of the model. \<^verbatim>\<open>isalnum\<close> tests code point by code point;
  \<^verbatim>\<open>lower\<close>, \<^verbatim>\<open>upper\<close> and \<^verbatim>\<open>capitalize\<close> may change the length of a string with
  code points from 128 on and look at the context of a code point, so for such strings
  the whole result comes from the parameter.
\<close>

record unicode_db =
  u_isalnum :: "nat \<Rightarrow> bool"
  u_lower :: "pystr \<Rightarrow> pystr"
  u_upper :: "pystr \<Rightarrow> pystr"
  u_capitalize :: "pystr \<Rightarrow> pystr"

definition py_isalnum :: "unicode_db \<Rightarrow> pystr \<Rightarrow> bool" where
  "py_isalnum U w =
     (w \<noteq> [] \<and> list_all (\<lambda>c. if c < 128 then ascii_isalnum c else u_isalnum U c) w)"

definition py_lower :: "unicode_db \<Rightarrow> pystr \<Rightarrow> pystr" where
  "py_lower U w = (if is_ascii w then map ascii_lower w else u_lower U w)"

definition py_upper :: "unicode_db \<Rightarrow> pystr \<Rightarrow> pystr" where
  "py_upper U w = (if is_ascii w then map ascii_upper w else u_upper U w)"

definition py_capitalize :: "unicode_db \<Rightarrow> pystr \<Rightarrow> pystr" where
  "py_capitalize U w =
     (if is_ascii w
      then (case w of [] \<Rightarrow> [] | c # cs \<Rightarrow> ascii_upper c # map ascii_lower cs)
      else u_capitalize U w)"

text \<open>\<^verbatim>\<open>str(n)\<close> of a non-negative integer: its decimal digits, no leading zero.\<close>

fun py_str :: "nat \<Rightarrow> pystr" where
  "py_str n = (if n < 10 then [48 + n] else py_str (n div 10) @ [48 + n mod 10])"

declare py_str.simps [simp del]

text \<open>
  The format specification \<^verbatim>\<open>0wd\<close> of an f-string: the decimal digits, padded on the left
  with zeros up to width \<open>w\<close>; a longer number is not cut.
\<close>

definition py_format_0d :: "nat \<Rightarrow> nat \<Rightarrow> pystr" where
  "py_format_0d width n = replicate (width - length (py_str n)) 48 @ py_str n"

text \<open>\<^verbatim>\<open>d.get(k, default)\<close> on a dictionary kept as its list of items.\<close>

definition dict_get :: "('k \<times> 'v) list \<Rightarrow> 'k \<Rightarrow> 'v \<Rightarrow> 'v" where
  "dict_get d k dflt = (case map_of d k of Some v \<Rightarrow> v | None \<Rightarrow> dflt)"

section \<open>The state the generator works on\<close>

text \<open>
  The fields of the \<^verbatim>\<open>UsernameGenerator\<close> object that generation reads or writes, with the
  global state it touches: the records handed to \<^verbatim>\<open>LOGGER\<close>, what its handlers have
  written, and the random number generator of module \<^verbatim>\<open>random\<close>. The generator is a
  sequence of raw draws still to be consumed; every request takes the next one and
  reduces it to the requested range. Theorems hold for every such sequence, so for every
  run of the real generator.

  \<^verbatim>\<open>LOGGER\<close> has three handlers when usernames are generated: the file handler and the
  stream handler on \<^verbatim>\<open>sys.stdout\<close> added when the module is loaded, and the \<^verbatim>\<open>TextHandler\<close>
  on the text widget \<^verbatim>\<open>self.log_output\<close> that \<^verbatim>\<open>setup_log_window\<close> adds when the object is
  built. \<open>log_file\<close>, \<open>stdout\<close> and \<open>log_output\<close> hold what has been written to each, one
  element a write. The time of a record, as \<^verbatim>\<open>%(asctime)s\<close> prints it, comes from \<open>clock\<close>,
  the times of the records still to be made; \<open>logger_name\<close> is \<^verbatim>\<open>__name__\<close> of the module.
\<close>

datatype level = DEBUG | INFO | WARNING | CRITICAL

record world =
  case_var :: pystr
  number_var :: pystr
  tree :: "(pystr \<times> pystr) list"
  log_output :: "pystr list"
  LOGGER :: "(level \<times> pystr) list"
  rng :: "nat \<Rightarrow> nat"
  log_file :: "pystr list"
  stdout :: "pystr list"
  clock :: "nat \<Rightarrow> pystr"
  logger_name :: pystr

datatype error = IndexError

fun levelname :: "level \<Rightarrow> pystr" where
  "levelname DEBUG = lit ''DEBUG''"
| "levelname INFO = lit ''INFO''"
| "levelname WARNING = lit ''WARNING''"
| "levelname CRITICAL = lit ''CRITICAL''"

text \<open>
  A call of \<^verbatim>\<open>LOGGER.debug\<close>, \<^verbatim>\<open>info\<close>, \<^verbatim>\<open>warning\<close> or \<^verbatim>\<open>critical\<close> with the message
  already put together. The logger lets every level through. The file handler writes
  time, name, level and message; the stream handler, from level \<^verbatim>\<open>INFO\<close> on, level and
  message; the \<^verbatim>\<open>TextHandler\<close> inserts time, level and message at the end of the widget.
  Each ends the line with a newline.
\<close>

definition log_record :: "level \<Rightarrow> pystr \<Rightarrow> world \<Rightarrow> world" where
  "log_record lvl msg st =
     (let asctime = clock st 0
      in st\<lparr>LOGGER := LOGGER st @ [(lvl, msg)],
            log_file := log_file st
              @ [asctime @ lit '' - '' @ logger_name st @ lit '' - '' @ levelname lvl
                 @ lit '' - '' @ msg @ [10]],
            stdout := (if lvl = DEBUG then stdout st
                       else stdout st @ [levelname lvl @ lit '' - '' @ msg @ [10]]),
            log_output := log_output st
              @ [asctime @ lit '' - '' @ levelname lvl @ lit '' - '' @ msg @ [10]],
            clock := \<lambda>i. clock st (Suc i)\<rparr>)"

definition log_output_insert :: "pystr \<Rightarrow> world \<Rightarrow> world" where
  "log_output_insert msg st = st\<lparr>log_output := log_output st @ [msg]\<rparr>"

definition next_draw :: "world \<Rightarrow> nat \<times> world" where
  "next_draw st = (rng st 0, st\<lparr>rng := \<lambda>i. rng st (Suc i)\<rparr>)"

text \<open>
  \<^verbatim>\<open>random.randint(a, b)\<close>: an integer between \<open>a\<close> and \<open>b\<close>, both included. The three
  calls of the source pass literals with \<open>0 = a \<le> b\<close>.
\<close>

definition randint :: "nat \<Rightarrow> nat \<Rightarrow> world \<Rightarrow> nat \<times> world" where
  "randint a b st = (let (x, st') = next_draw st in (a + x mod (b + 1 - a), st'))"

text \<open>\<^verbatim>\<open>random.choice(seq)\<close>: raises \<^verbatim>\<open>IndexError\<close> on an empty sequence.\<close>

definition choice :: "'a list \<Rightarrow> world \<Rightarrow> (error + 'a) \<times> world" where
  "choice seq st =
     (if seq = [] then (Inl IndexError, st)
      else (let (x, st') = next_draw st in (Inr (seq ! (x mod length seq)), st')))"

section \<open>The language table\<close>

definition language_names :: "(pystr \<times> pystr) list" where
  "language_names =
     [(lit ''eng'', lit ''English''),
      (lit ''spa'', lit ''Spanish''),
      (lit ''fra'', lit ''French''),
      (lit ''ita'', lit ''Italian''),
      (lit ''por'', lit ''Portuguese''),
      (lit ''nld'', lit ''Dutch''),
      (lit ''pol'', lit ''Polish''),
      (lit ''swe'', lit ''Swedish''),
      (lit ''fin'', lit ''Finnish''),
      (lit ''nno'', lit ''Norwegian Nynorsk''),
      (lit ''nob'', lit ''Norwegian Bokm'' @ [195, 165] @ lit ''l''),
      (lit ''ron'', lit ''Romanian''),
      (lit ''slk'', lit ''Slovak''),
      (lit ''slv'', lit ''Slovenian''),
      (lit ''zsm'', lit ''Malay''),
      (lit ''eus'', lit ''Basque''),
      (lit ''cat'', lit ''Catalan''),
      (lit ''dan'', lit ''Danish''),
      (lit ''lit'', lit ''Lithuanian'')]"

definition language_codes :: "pystr list" where
  "language_codes = map fst language_names"

section \<open>The lexical source\<close>

text \<open>
  WordNet is an external collaborator. \<^verbatim>\<open>wordnet.all_synsets()\<close> is an iteration whose
  every step yields a synset or raises; \<^verbatim>\<open>synset.lemmas(lang=code)\<close> returns the lemmas of
  the synset in a language, here their names, or raises. A raised exception is kept as
  its message \<^verbatim>\<open>str(exc)\<close>. Exits that are no \<^verbatim>\<open>Exception\<close> (a keyboard interrupt) are
  outside the model.
\<close>

type_synonym synset = "pystr \<Rightarrow> pystr + pystr list"

type_synonym wordnet = "(pystr + synset) list"

fun lemma_loop :: "unicode_db \<Rightarrow> pystr list \<Rightarrow> pystr list \<Rightarrow> pystr list" where
  "lemma_loop U [] words = words"
| "lemma_loop U (word # lemmas) words =
     lemma_loop U lemmas (if py_isalnum U word then words @ [word] else words)"

fun synset_loop ::
  "unicode_db \<Rightarrow> pystr \<Rightarrow> wordnet \<Rightarrow> pystr list \<Rightarrow> pystr option \<times> pystr list" where
  "synset_loop U lang_code [] words = (None, words)"
| "synset_loop U lang_code (Inl exc # rest) words = (Some exc, words)"
| "synset_loop U lang_code (Inr synset # rest) words =
     (case synset lang_code of
        Inl exc \<Rightarrow> (Some exc, words)
      | Inr lemmas \<Rightarrow> synset_loop U lang_code rest (lemma_loop U lemmas words))"

definition get_words :: "unicode_db \<Rightarrow> wordnet \<Rightarrow> pystr \<Rightarrow> world \<Rightarrow> pystr list \<times> world" where
  "get_words U wn lang_code st =
     (case synset_loop U lang_code wn [] of
        (None, words) \<Rightarrow> (words, st)
      | (Some exc, words) \<Rightarrow>
          (words,
           log_record WARNING
             (lit ''Failed to fetch words for '' @ [39] @ lang_code @ [39] @ lit '': '' @ exc)
             st))"

section \<open>Word filter, formatter and batch\<close>

definition is_valid_word :: "pystr \<Rightarrow> int \<Rightarrow> bool" where
  "is_valid_word word min_len =
     (list_all (\<lambda>c. c < 128) word \<and> int (length word) \<ge> min_len)"

definition finalize_username :: "unicode_db \<Rightarrow> pystr \<Rightarrow> world \<Rightarrow> pystr \<times> world" where
  "finalize_username U word0 st =
     (let case_style = case_var st;
          word =
            (if case_style = lit ''lowercase'' then py_lower U word0
             else if case_style = lit ''uppercase'' then py_upper U word0
             else if case_style = lit ''capitalize'' then py_capitalize U word0
             else word0);
          style = number_var st
      in if style = lit ''1digit''
         then (let (n, st') = randint 0 9 st in (word @ py_str n, st'))
         else if style = lit ''2digit''
         then (let (n, st') = randint 0 99 st in (word @ py_format_0d 2 n, st'))
         else if style = lit ''3digit''
         then (let (n, st') = randint 0 999 st in (word @ py_format_0d 3 n, st'))
         else (word, st))"

definition generate_ascii_username ::
  "unicode_db \<Rightarrow> wordnet \<Rightarrow> pystr \<Rightarrow> world \<Rightarrow> (error + pystr) \<times> world" where
  "generate_ascii_username U wn lang_code st =
     (let (words, st1) = get_words U wn lang_code st;
          valid_words = filter (\<lambda>word. is_valid_word word 3) words;
          (r, st2) = choice valid_words st1
      in case r of
           Inl e \<Rightarrow> (Inl e, st2)
         | Inr word \<Rightarrow> (let (username, st3) = finalize_username U word st2
                        in (Inr username, st3)))"

text \<open>
  The body of the loop \<^verbatim>\<open>for i in range(total)\<close> of \<^verbatim>\<open>generate_usernames\<close>, run over the
  indices still to come. An exception leaves the loop; what was written to the state
  before stays written.
\<close>

fun generate_loop ::
  "unicode_db \<Rightarrow> wordnet \<Rightarrow> nat \<Rightarrow> nat list \<Rightarrow> (pystr \<times> pystr) list \<Rightarrow> world
     \<Rightarrow> (error + (pystr \<times> pystr) list) \<times> world" where
  "generate_loop U wn total_n [] usernames st = (Inr usernames, st)"
| "generate_loop U wn total_n (i # rest) usernames st =
     (let message =
            lit ''Generating username '' @ py_str (i + 1) @ lit ''/'' @ py_str total_n @ lit ''...'';
          st1 = log_record INFO message st;
          st2 = log_output_insert (message @ [10]) st1;
          (r, st3) = choice language_codes st2
      in case r of
           Inl e \<Rightarrow> (Inl e, st3)
         | Inr lang_code \<Rightarrow>
             (case generate_ascii_username U wn lang_code st3 of
                (Inl e, st4) \<Rightarrow> (Inl e, st4)
              | (Inr username, st4) \<Rightarrow>
                  generate_loop U wn total_n rest
                    (usernames @ [(username, dict_get language_names lang_code lang_code)]) st4))"

text \<open>
  \<^verbatim>\<open>generate_usernames\<close> returns nothing: its result is the content of the tree view. The
  sort of a Python list is stable, as insertion sort by key is.
\<close>

definition generate_usernames :: "unicode_db \<Rightarrow> wordnet \<Rightarrow> world \<Rightarrow> (error + unit) \<times> world" where
  "generate_usernames U wn st =
     (let st1 = log_record INFO (lit ''Starting username generation...'') st;
          st2 = log_output_insert (lit ''Generating usernames...'' @ [10]) st1;
          st3 = st2\<lparr>tree := []\<rparr>;
          total_n = 40
      in case generate_loop U wn total_n [0..<total_n] [] st3 of
           (Inl e, st4) \<Rightarrow> (Inl e, st4)
         | (Inr usernames, st4) \<Rightarrow>
             (let sorted_usernames = sort_key fst usernames;
                  st5 = st4\<lparr>tree := tree st4 @ sorted_usernames\<rparr>;
                  st6 = log_record INFO (lit ''Username generation completed successfully.'') st5;
                  st7 = log_output_insert
                          (lit ''Username generation completed successfully.'' @ [10]) st6
              in (Inr (), st7)))"


section \<open>Parts of the functions named for the statements\<close>

text \<open>
  The first conditional of \<^verbatim>\<open>finalize_username\<close>: the word after the case style has been
  applied, before any digits are appended.
\<close>

definition case_transform :: "unicode_db \<Rightarrow> pystr \<Rightarrow> pystr \<Rightarrow> pystr" where
  "case_transform U case_style word =
     (if case_style = lit ''lowercase'' then py_lower U word
      else if case_style = lit ''uppercase'' then py_upper U word
      else if case_style = lit ''capitalize'' then py_capitalize U word
      else word)"

text \<open>
  The value of the local \<^verbatim>\<open>valid_words\<close> of \<^verbatim>\<open>generate_ascii_username\<close>: the words gathered
  by \<^verbatim>\<open>get_words\<close> that pass the filter with the default minimum length.
\<close>

definition valid_words :: "unicode_db \<Rightarrow> wordnet \<Rightarrow> pystr \<Rightarrow> pystr list" where
  "valid_words U wn lang_code =
     filter (\<lambda>word. is_valid_word word 3) (snd (synset_loop U lang_code wn []))"

text \<open>The progress message of iteration \<open>i\<close>, and the state when the language has been drawn.\<close>

definition loop_message :: "nat \<Rightarrow> nat \<Rightarrow> pystr" where
  "loop_message i total_n =
     lit ''Generating username '' @ py_str (i + 1) @ lit ''/'' @ py_str total_n @ lit ''...''"

definition loop_enter :: "nat \<Rightarrow> nat \<Rightarrow> world \<Rightarrow> world" where
  "loop_enter i total_n st =
     snd (next_draw (log_output_insert (loop_message i total_n @ [10])
                       (log_record INFO (loop_message i total_n) st)))"

text \<open>
  What one step of the iteration over WordNet does for a language: the message of the
  exception it raises, if it raises, and the lemma names it yields otherwise.
\<close>

definition fails_with :: "pystr \<Rightarrow> pystr + synset \<Rightarrow> pystr option" where
  "fails_with lang_code x =
     (case x of
        Inl exc \<Rightarrow> Some exc
      | Inr synset \<Rightarrow> (case synset lang_code of Inl exc \<Rightarrow> Some exc | Inr names \<Rightarrow> None))"

definition names_in :: "pystr \<Rightarrow> pystr + synset \<Rightarrow> pystr list" where
  "names_in lang_code x =
     (case x of
        Inl exc \<Rightarrow> []
      | Inr synset \<Rightarrow> (case synset lang_code of Inl exc \<Rightarrow> [] | Inr names \<Rightarrow> names))"

text \<open>
  The draws of the batch. An iteration of the loop of \<^verbatim>\<open>generate_usernames\<close> that gives a
  username takes its draws from the random source in order: one for the language, one
  for the word, and one for the digits when the number style has digits. So iteration
  \<open>k\<close>, counted from 0, starts at draw \<open>k * draws_per_username\<close>; \<open>drawn_language\<close> is the
  language it chooses, \<open>drawn_username\<close> the username it formats from the word it
  chooses among the valid words of that language, and \<open>drawn_row\<close> the pair it appends.
  \<open>batch_enter\<close> is the state when the loop starts.
\<close>

definition draws_per_username :: "world \<Rightarrow> nat" where
  "draws_per_username st =
     (if number_var st = lit ''1digit'' \<or> number_var st = lit ''2digit''
         \<or> number_var st = lit ''3digit''
      then 3 else 2)"

definition drawn_language :: "world \<Rightarrow> nat \<Rightarrow> pystr" where
  "drawn_language st k =
     language_codes ! (rng st (k * draws_per_username st) mod length language_codes)"

definition drawn_username :: "unicode_db \<Rightarrow> wordnet \<Rightarrow> world \<Rightarrow> nat \<Rightarrow> pystr" where
  "drawn_username U wn st k =
     (let n = k * draws_per_username st;
          valid = valid_words U wn (drawn_language st k)
      in fst (finalize_username U (valid ! (rng st (n + 1) mod length valid))
                (st\<lparr>rng := \<lambda>i. rng st (n + 2 + i)\<rparr>)))"

definition drawn_row :: "unicode_db \<Rightarrow> wordnet \<Rightarrow> world \<Rightarrow> nat \<Rightarrow> pystr \<times> pystr" where
  "drawn_row U wn st k =
     (drawn_username U wn st k,
      dict_get language_names (drawn_language st k) (drawn_language st k))"

definition batch_enter :: "world \<Rightarrow> world" where
  "batch_enter st =
     (log_output_insert (lit ''Generating usernames...'' @ [10])
        (log_record INFO (lit ''Starting username generation...'') st))\<lparr>tree := []\<rparr>"

text \<open>The warning that \<^verbatim>\<open>get_words\<close> logs for an exception with message \<open>exc\<close>.\<close>

definition fetch_warning :: "pystr \<Rightarrow> pystr \<Rightarrow> pystr" where
  "fetch_warning lang_code exc =
     lit ''Failed to fetch words for '' @ [39] @ lang_code @ [39] @ lit '': '' @ exc"

section \<open>Example inputs\<close>

text \<open>
  A character database with nothing beyond ASCII, a state with given settings, empty
  widgets and logs and a given sequence of draws, and three lexical sources: one synset with the
  lemmas cat, ox and wolf in every language; the same lemmas in English only; and one
  whose lookup raises for English and gives cat in every other language.
\<close>

definition example_db :: unicode_db where
  "example_db =
     \<lparr>u_isalnum = (\<lambda>c. False), u_lower = (\<lambda>w. w), u_upper = (\<lambda>w. w),
      u_capitalize = (\<lambda>w. w)\<rparr>"

definition world_of :: "pystr \<Rightarrow> pystr \<Rightarrow> (nat \<Rightarrow> nat) \<Rightarrow> world" where
  "world_of case_style style draws =
     \<lparr>case_var = case_style, number_var = style, tree = [], log_output = [], LOGGER = [],
      rng = draws, log_file = [], stdout = [], clock = (\<lambda>i. lit ''12:00:0'' @ py_str i),
      logger_name = lit ''__main__''\<rparr>"

definition wn_every_language :: wordnet where
  "wn_every_language = [Inr (\<lambda>lang_code. Inr [lit ''cat'', lit ''ox'', lit ''wolf''])]"

definition wn_english_only :: wordnet where
  "wn_english_only =
     [Inr (\<lambda>lang_code. if lang_code = lit ''eng''
                        then Inr [lit ''cat'', lit ''ox'', lit ''wolf''] else Inr [])]"

definition wn_english_raises :: wordnet where
  "wn_english_raises =
     [Inr (\<lambda>lang_code. if lang_code = lit ''eng''
                        then Inl (lit ''no such language'') else Inr [lit ''cat''])]"

text \<open>
  Two more lexical sources: one with lemma names that hold an underscore, a hyphen and a
  space, and one whose iteration raises after the first synset.
\<close>

definition wn_compound :: wordnet where
  "wn_compound =
     [Inr (\<lambda>lang_code. Inr [lit ''cat'', lit ''ice_cream'', lit ''well-known'', lit ''hot dog''])]"

definition wn_breaks_midway :: wordnet where
  "wn_breaks_midway =
     [Inr (\<lambda>lang_code. Inr [lit ''wolf'']), Inl (lit ''corpus unreadable''),
      Inr (\<lambda>lang_code. Inr [lit ''cat''])]"

text \<open>
  The entries of the Unicode character database for the letter d with z and caron:
  code point 452 (U+01C4) is its upper case, 453 (U+01C5) its title case and 454 (U+01C6)
  its lower case. \<^verbatim>\<open>capitalize\<close> puts the first character in title case.
\<close>

definition dz_lower :: "nat \<Rightarrow> nat" where
  "dz_lower c = (if c = 452 \<or> c = 453 then 454 else ascii_lower c)"

definition dz_upper :: "nat \<Rightarrow> nat" where
  "dz_upper c = (if c = 453 \<or> c = 454 then 452 else ascii_upper c)"

definition dz_title :: "nat \<Rightarrow> nat" where
  "dz_title c = (if c = 452 \<or> c = 454 then 453 else ascii_upper c)"

definition unicode_dz :: unicode_db where
  "unicode_dz =
     \<lparr>u_isalnum = (\<lambda>c. c = 452 \<or> c = 453 \<or> c = 454),
      u_lower = map dz_lower,
      u_upper = map dz_upper,
      u_capitalize = (\<lambda>w. case w of [] \<Rightarrow> [] | c # cs \<Rightarrow> dz_title c # map dz_lower cs)\<rparr>"

section \<open>Auxiliary facts\<close>

lemma get_words_fst: "fst (get_words U wn lang_code st) = snd (synset_loop U lang_code wn [])"
  by (simp add: get_words_def split: prod.splits option.splits)

lemma choice_empty: "choice [] st = (Inl IndexError, st)"
  by (simp add: choice_def)

lemma choice_nonempty:
  "seq \<noteq> [] \<Longrightarrow> choice seq st = (Inr (seq ! (rng st 0 mod length seq)), snd (next_draw st))"
  by (simp add: choice_def next_draw_def)

lemma choice_in_set: "choice seq st = (Inr x, st') \<Longrightarrow> x \<in> set seq"
  by (cases "seq = []") (auto simp: choice_def next_draw_def)

lemma generate_ascii_username_unfold:
  "generate_ascii_username U wn lang_code st =
     (let st1 = snd (get_words U wn lang_code st); vs = valid_words U wn lang_code
      in if vs = [] then (Inl IndexError, st1)
         else (let r = finalize_username U (vs ! (rng st1 0 mod length vs)) (snd (next_draw st1))
               in (Inr (fst r), snd r)))"
proof -
  obtain words st1 where gw: "get_words U wn lang_code st = (words, st1)"
    by fastforce
  have w: "words = snd (synset_loop U lang_code wn [])"
    using get_words_fst [of U wn lang_code st] gw by simp
  show ?thesis
  proof (cases "valid_words U wn lang_code = []")
    case True
    then show ?thesis
      using w by (simp add: generate_ascii_username_def gw valid_words_def choice_empty)
  next
    case False
    then show ?thesis
      using w
      by (simp add: generate_ascii_username_def gw valid_words_def choice_nonempty Let_def
          split: prod.splits)
  qed
qed



lemma py_str_1: "n < 10 \<Longrightarrow> py_str n = [48 + n]"
  by (simp add: py_str.simps)

lemma py_str_2: "10 \<le> n \<Longrightarrow> n < 100 \<Longrightarrow> py_str n = [48 + n div 10, 48 + n mod 10]"
  by (subst py_str.simps) (simp add: py_str_1)

lemma py_str_3:
  "100 \<le> n \<Longrightarrow> n < 1000 \<Longrightarrow> py_str n = [48 + n div 100, 48 + n div 10 mod 10, 48 + n mod 10]"
  by (subst py_str.simps) (simp add: py_str_2 div_mult2_eq [symmetric])

lemma py_format_02d: "n < 100 \<Longrightarrow> py_format_0d 2 n = [48 + n div 10, 48 + n mod 10]"
  by (cases "n < 10") (simp_all add: py_format_0d_def py_str_1 py_str_2)

lemma py_format_03d:
  "n < 1000 \<Longrightarrow> py_format_0d 3 n = [48 + n div 100, 48 + n div 10 mod 10, 48 + n mod 10]"
proof -
  assume n: "n < 1000"
  consider "n < 10" | "10 \<le> n" "n < 100" | "100 \<le> n"
    by linarith
  then show ?thesis
  proof cases
    case 1
    then show ?thesis by (simp add: py_format_0d_def py_str_1 numeral_2_eq_2)
  next
    case 2
    then show ?thesis by (simp add: py_format_0d_def py_str_2)
  next
    case 3
    then show ?thesis using n by (simp add: py_format_0d_def py_str_3)
  qed
qed

lemma lit_styles:
  "lit ''1digit'' \<noteq> lit ''2digit''" "lit ''1digit'' \<noteq> lit ''3digit''"
  "lit ''2digit'' \<noteq> lit ''3digit''" "lit ''none'' \<noteq> lit ''1digit''"
  "lit ''none'' \<noteq> lit ''2digit''" "lit ''none'' \<noteq> lit ''3digit''"
  "lit ''lowercase'' \<noteq> lit ''uppercase''" "lit ''lowercase'' \<noteq> lit ''capitalize''"
  "lit ''uppercase'' \<noteq> lit ''capitalize''"
  by (simp_all add: lit_def)

lemma finalize_username_eq:
  "finalize_username U word st =
     (let w = case_transform U (case_var st) word; x = rng st 0; st' = snd (next_draw st)
      in if number_var st = lit ''1digit'' then (w @ [48 + x mod 10], st')
         else if number_var st = lit ''2digit''
         then (w @ [48 + x mod 100 div 10, 48 + x mod 100 mod 10], st')
         else if number_var st = lit ''3digit''
         then (w @ [48 + x mod 1000 div 100, 48 + x mod 1000 div 10 mod 10, 48 + x mod 1000 mod 10],
               st')
         else (w, st))"
  by (simp add: finalize_username_def case_transform_def randint_def next_draw_def Let_def
      py_str_1 py_format_02d py_format_03d)

lemma ascii_lower_less: "c < 128 \<Longrightarrow> ascii_lower c < 128"
  by (auto simp: ascii_lower_def ascii_isupper_def)

lemma ascii_upper_less: "c < 128 \<Longrightarrow> ascii_upper c < 128"
  by (auto simp: ascii_upper_def)

lemma ascii_lower_isalnum: "ascii_isalnum c \<Longrightarrow> ascii_isalnum (ascii_lower c)"
  by (auto simp: ascii_lower_def ascii_isalnum_def ascii_isupper_def ascii_islower_def
      ascii_isdigit_def)

lemma ascii_upper_isalnum: "ascii_isalnum c \<Longrightarrow> ascii_isalnum (ascii_upper c)"
  by (auto simp: ascii_upper_def ascii_isalnum_def ascii_isupper_def ascii_islower_def
      ascii_isdigit_def)

lemma case_transform_ascii:
  "is_ascii word \<Longrightarrow>
   case_transform U case_style word =
     (if case_style = lit ''lowercase'' then map ascii_lower word
      else if case_style = lit ''uppercase'' then map ascii_upper word
      else if case_style = lit ''capitalize''
      then (case word of [] \<Rightarrow> [] | c # cs \<Rightarrow> ascii_upper c # map ascii_lower cs)
      else word)"
  by (simp add: case_transform_def py_lower_def py_upper_def py_capitalize_def)

lemma case_transform_pres:
  assumes "is_ascii word" and "list_all P word"
    and "\<And>c. c < 128 \<Longrightarrow> P c \<Longrightarrow> P (ascii_lower c)"
    and "\<And>c. c < 128 \<Longrightarrow> P c \<Longrightarrow> P (ascii_upper c)"
  shows "list_all P (case_transform U case_style word)"
proof (cases word)
  case Nil
  then show ?thesis
    by (simp add: case_transform_ascii is_ascii_def)
next
  case (Cons c cs)
  have a: "\<forall>x \<in> set word. x < 128 \<and> P x"
    using assms(1,2) by (simp add: is_ascii_def list_all_iff)
  have "\<forall>x \<in> set word. P (ascii_lower x) \<and> P (ascii_upper x)"
    using a assms(3,4) by blast
  then show ?thesis
    using assms(1,2) Cons by (simp add: case_transform_ascii list_all_iff)
qed

lemma finalize_username_pres:
  assumes "is_ascii word" and "list_all P word"
    and "\<And>c. c < 128 \<Longrightarrow> P c \<Longrightarrow> P (ascii_lower c)"
    and "\<And>c. c < 128 \<Longrightarrow> P c \<Longrightarrow> P (ascii_upper c)"
    and "\<And>d. d \<le> 9 \<Longrightarrow> P (48 + d)"
  shows "list_all P (fst (finalize_username U word st))"
proof -
  have w: "list_all P (case_transform U (case_var st) word)"
    using assms(1-4) by (rule case_transform_pres)
  have d: "P (48 + x mod 10)" "P (48 + x mod 100 div 10)" "P (48 + x mod 100 mod 10)"
    "P (48 + x mod 1000 div 100)" "P (48 + x mod 1000 div 10 mod 10)"
    "P (48 + x mod 1000 mod 10)" for x :: nat
    by (rule assms(5), simp)+
  show ?thesis
    by (simp add: finalize_username_eq Let_def w d)
qed


lemma language_codes_nonempty: "language_codes \<noteq> []"
  by (simp add: language_codes_def language_names_def)

lemma get_words_frame:
  "rng (snd (get_words U wn lang_code st)) = rng st"
  "tree (snd (get_words U wn lang_code st)) = tree st"
  "case_var (snd (get_words U wn lang_code st)) = case_var st"
  "number_var (snd (get_words U wn lang_code st)) = number_var st"
  by (simp_all add: get_words_def log_record_def Let_def split: prod.splits option.splits)

lemma finalize_username_frame:
  "tree (snd (finalize_username U word st)) = tree st"
  "case_var (snd (finalize_username U word st)) = case_var st"
  "number_var (snd (finalize_username U word st)) = number_var st"
  "log_output (snd (finalize_username U word st)) = log_output st"
  "LOGGER (snd (finalize_username U word st)) = LOGGER st"
  by (simp_all add: finalize_username_eq Let_def next_draw_def)

lemma generate_ascii_username_tree:
  "tree (snd (generate_ascii_username U wn lang_code st)) = tree st"
  by (simp add: generate_ascii_username_unfold Let_def get_words_frame finalize_username_frame
      next_draw_def)



lemma loop_enter_frame:
  "tree (loop_enter i n st) = tree st"
  "rng (loop_enter i n st) = (\<lambda>k. rng st (Suc k))"
  by (simp_all add: loop_enter_def next_draw_def log_output_insert_def log_record_def Let_def)

lemma generate_loop_Cons:
  "generate_loop U wn total_n (i # rest) usernames st =
     (let lang_code = language_codes ! (rng st 0 mod length language_codes);
          r = generate_ascii_username U wn lang_code (loop_enter i total_n st)
      in case fst r of
           Inl e \<Rightarrow> (Inl e, snd r)
         | Inr username \<Rightarrow>
             generate_loop U wn total_n rest
               (usernames @ [(username, dict_get language_names lang_code lang_code)]) (snd r))"
  by (simp add: choice_nonempty language_codes_nonempty Let_def loop_enter_def loop_message_def
      log_output_insert_def log_record_def next_draw_def split: prod.splits sum.splits)

declare generate_loop.simps(2) [simp del]



lemma generate_loop_raises:
  assumes "valid_words U wn (language_codes ! (rng st 0 mod length language_codes)) = []"
  shows "fst (generate_loop U wn total_n (i # rest) usernames st) = Inl IndexError"
  using assms by (simp add: generate_loop_Cons Let_def generate_ascii_username_unfold)

lemma lemma_loop_eq: "lemma_loop U names words = words @ filter (py_isalnum U) names"
  by (induction names arbitrary: words) simp_all

lemma synset_loop_alnum:
  "list_all (py_isalnum U) words \<Longrightarrow>
   list_all (py_isalnum U) (snd (synset_loop U lang_code wn words))"
proof (induction U lang_code wn words rule: synset_loop.induct)
  case (1 U lang_code words)
  then show ?case by simp
next
  case (2 U lang_code exc rest words)
  then show ?case by simp
next
  case (3 U lang_code synset rest words)
  show ?case
  proof (cases "synset lang_code")
    case (Inl exc)
    then show ?thesis using "3.prems" by simp
  next
    case (Inr names)
    have "list_all (py_isalnum U) (lemma_loop U names words)"
      using "3.prems" by (auto simp: lemma_loop_eq list_all_iff)
    with "3.IH" [OF Inr] show ?thesis using Inr by simp
  qed
qed

lemma valid_words_props:
  assumes "word \<in> set (valid_words U wn lang_code)"
  shows "is_ascii word" and "list_all ascii_isalnum word" and "is_valid_word word 3"
proof -
  from assms have v: "is_valid_word word 3"
    and m: "word \<in> set (snd (synset_loop U lang_code wn []))"
    by (simp_all add: valid_words_def)
  from v show a: "is_ascii word"
    by (simp add: is_valid_word_def is_ascii_def)
  have "list_all (py_isalnum U) (snd (synset_loop U lang_code wn []))"
    by (rule synset_loop_alnum) simp
  with m have "py_isalnum U word"
    by (simp add: list_all_iff)
  with a show "list_all ascii_isalnum word"
    by (auto simp: py_isalnum_def is_ascii_def list_all_iff)
  from v show "is_valid_word word 3" .
qed

lemma generate_ascii_username_Inr:
  assumes "fst (generate_ascii_username U wn lang_code st) = Inr username"
  shows "\<exists>word st1. word \<in> set (valid_words U wn lang_code)
           \<and> username = fst (finalize_username U word st1)"
proof (cases "valid_words U wn lang_code = []")
  case True
  with assms show ?thesis
    by (simp add: generate_ascii_username_unfold)
next
  case False
  let ?vs = "valid_words U wn lang_code"
  let ?st1 = "snd (get_words U wn lang_code st)"
  have "?vs ! (rng ?st1 0 mod length ?vs) \<in> set ?vs"
    using False by simp
  moreover have "username =
      fst (finalize_username U (?vs ! (rng ?st1 0 mod length ?vs)) (snd (next_draw ?st1)))"
    using assms False by (simp add: generate_ascii_username_unfold Let_def)
  ultimately show ?thesis by blast
qed

lemma valid_words_english_only:
  "valid_words example_db wn_english_only (lit ''eng'') = [lit ''cat'', lit ''wolf'']"
  by (simp add: valid_words_def wn_english_only_def lemma_loop_eq py_isalnum_def
      ascii_isalnum_def ascii_isupper_def ascii_islower_def ascii_isdigit_def is_valid_word_def
      lit_def)

lemma language_codes_eq:
  "language_codes =
     [lit ''eng'', lit ''spa'', lit ''fra'', lit ''ita'', lit ''por'', lit ''nld'', lit ''pol'',
      lit ''swe'', lit ''fin'', lit ''nno'', lit ''nob'', lit ''ron'', lit ''slk'', lit ''slv'',
      lit ''zsm'', lit ''eus'', lit ''cat'', lit ''dan'', lit ''lit'']"
  by (simp add: language_codes_def language_names_def)

lemma generate_usernames_fst:
  "fst (generate_usernames U wn st) =
     (case fst (generate_loop U wn 40 [0..<40] []
                 ((log_output_insert (lit ''Generating usernames...'' @ [10])
                    (log_record INFO (lit ''Starting username generation...'') st))
                  \<lparr>tree := []\<rparr>)) of
        Inl e \<Rightarrow> Inl e | Inr usernames \<Rightarrow> Inr ())"
  by (simp add: generate_usernames_def Let_def split: prod.splits sum.splits)

lemma generate_usernames_raises:
  assumes "valid_words U wn (language_codes ! (rng st 0 mod length language_codes)) = []"
  shows "fst (generate_usernames U wn st) = Inl IndexError"
proof -
  let ?st3 = "(log_output_insert (lit ''Generating usernames...'' @ [10])
                 (log_record INFO (lit ''Starting username generation...'') st))\<lparr>tree := []\<rparr>"
  have r: "rng ?st3 = rng st"
    by (simp add: log_output_insert_def log_record_def Let_def)
  have "[0..<40::nat] = 0 # [1..<40]"
    by (simp add: upt_conv_Cons)
  moreover have "fst (generate_loop U wn 40 (0 # [1..<40]) [] ?st3) = Inl IndexError"
    using assms r by (intro generate_loop_raises) simp
  ultimately show ?thesis
    by (simp only: generate_usernames_fst sum.case)
qed



lemma synset_loop_append:
  assumes "\<forall>x \<in> set pre. fails_with lang_code x = None"
  shows "synset_loop U lang_code (pre @ rest) words =
         synset_loop U lang_code rest
           (words @ filter (py_isalnum U) (concat (map (names_in lang_code) pre)))"
  using assms
proof (induction pre arbitrary: words)
  case Nil
  then show ?case by simp
next
  case (Cons x pre)
  from Cons.prems obtain synset names where x: "x = Inr synset" "synset lang_code = Inr names"
    by (auto simp: fails_with_def split: sum.splits)
  from Cons.prems have "\<forall>x \<in> set pre. fails_with lang_code x = None"
    by simp
  from Cons.IH [OF this] show ?case
    using x by (simp add: names_in_def lemma_loop_eq)
qed

lemma synset_loop_fails:
  assumes "fails_with lang_code bad = Some exc"
  shows "synset_loop U lang_code (bad # post) words = (Some exc, words)"
  using assms by (cases bad) (auto simp: fails_with_def split: sum.splits)

lemma valid_words_every_language:
  "valid_words example_db wn_every_language lang_code = [lit ''cat'', lit ''wolf'']"
  by (simp add: valid_words_def wn_every_language_def lemma_loop_eq py_isalnum_def
      ascii_isalnum_def ascii_isupper_def ascii_islower_def ascii_isdigit_def is_valid_word_def
      lit_def)

lemma valid_words_english_only_other:
  "lang_code \<noteq> lit ''eng'' \<Longrightarrow> valid_words example_db wn_english_only lang_code = []"
  by (simp add: valid_words_def wn_english_only_def)

lemma valid_words_english_raises:
  "valid_words example_db wn_english_raises (lit ''eng'') = []"
  "valid_words example_db wn_english_raises (lit ''spa'') = [lit ''cat'']"
  by (simp_all add: valid_words_def wn_english_raises_def lemma_loop_eq py_isalnum_def
      ascii_isalnum_def ascii_isupper_def ascii_islower_def ascii_isdigit_def is_valid_word_def
      lit_def)

lemma language_codes_nth:
  "language_codes ! 0 = lit ''eng''" "language_codes ! Suc 0 = lit ''spa''"
  "language_codes ! 2 = lit ''fra''" "length language_codes = 19"
  by (simp_all add: language_codes_eq)

lemma get_words_fails:
  assumes "\<forall>x \<in> set pre. fails_with lang_code x = None"
    and "fails_with lang_code bad = Some exc"
  shows "get_words U (pre @ bad # post) lang_code st =
         (filter (py_isalnum U) (concat (map (names_in lang_code) pre)),
          log_record WARNING (fetch_warning lang_code exc) st)"
  by (simp add: get_words_def synset_loop_append [OF assms(1)] synset_loop_fails [OF assms(2)]
      fetch_warning_def)

lemma get_words_succeeds:
  assumes "\<forall>x \<in> set wn. fails_with lang_code x = None"
  shows "get_words U wn lang_code st =
         (filter (py_isalnum U) (concat (map (names_in lang_code) wn)), st)"
  using synset_loop_append [OF assms, of U "[]" "[]"]
  by (simp add: get_words_def)

lemma finalize_username_fst_cong:
  "case_var st = case_var st' \<Longrightarrow> number_var st = number_var st' \<Longrightarrow> rng st 0 = rng st' 0 \<Longrightarrow>
   fst (finalize_username U word st) = fst (finalize_username U word st')"
  by (simp add: finalize_username_eq Let_def)

lemma finalize_username_rng:
  "rng (snd (finalize_username U word st)) =
     (if draws_per_username st = 3 then (\<lambda>i. rng st (Suc i)) else rng st)"
  by (simp add: finalize_username_eq Let_def next_draw_def draws_per_username_def)

lemma loop_enter_settings:
  "case_var (loop_enter i n st) = case_var st"
  "number_var (loop_enter i n st) = number_var st"
  by (simp_all add: loop_enter_def next_draw_def log_output_insert_def log_record_def Let_def)

lemma generate_ascii_username_settings:
  "case_var (snd (generate_ascii_username U wn lang_code st)) = case_var st"
  "number_var (snd (generate_ascii_username U wn lang_code st)) = number_var st"
  by (simp_all add: generate_ascii_username_unfold Let_def get_words_frame
      finalize_username_frame next_draw_def)

lemma generate_ascii_username_rng:
  assumes "valid_words U wn lang_code \<noteq> []"
  shows "rng (snd (generate_ascii_username U wn lang_code st)) =
         (\<lambda>i. rng st (i + (draws_per_username st - 1)))"
  using assms
  by (simp add: generate_ascii_username_unfold Let_def finalize_username_eq next_draw_def
      get_words_frame draws_per_username_def numeral_2_eq_2)

lemma loop_step_username:
  assumes "valid_words U wn (drawn_language st 0) \<noteq> []"
  shows "fst (generate_ascii_username U wn (drawn_language st 0) (loop_enter i n st)) =
         Inr (drawn_username U wn st 0)"
proof -
  let ?lang = "drawn_language st 0"
  let ?vs = "valid_words U wn ?lang"
  let ?st1 = "snd (get_words U wn ?lang (loop_enter i n st))"
  have r: "rng ?st1 = (\<lambda>k. rng st (Suc k))"
    by (simp add: get_words_frame loop_enter_frame)
  have "fst (finalize_username U (?vs ! (rng st (Suc 0) mod length ?vs)) (snd (next_draw ?st1)))
      = fst (finalize_username U (?vs ! (rng st (Suc 0) mod length ?vs))
               (st\<lparr>rng := \<lambda>i. rng st (2 + i)\<rparr>))"
    by (rule finalize_username_fst_cong)
      (simp_all add: next_draw_def get_words_frame loop_enter_settings loop_enter_frame
        numeral_2_eq_2)
  then show ?thesis
    using assms
    by (simp add: generate_ascii_username_unfold Let_def r drawn_username_def get_words_frame
        loop_enter_frame)
qed

lemma loop_step_state:
  fixes i n :: nat
  assumes "valid_words U wn (drawn_language st 0) \<noteq> []"
  defines "st2 \<equiv> snd (generate_ascii_username U wn (drawn_language st 0) (loop_enter i n st))"
  shows "rng st2 = (\<lambda>j. rng st (j + draws_per_username st))"
    and "case_var st2 = case_var st" and "number_var st2 = number_var st"
    and "tree st2 = tree st"
proof -
  show "rng st2 = (\<lambda>j. rng st (j + draws_per_username st))"
    unfolding st2_def using assms(1)
    by (simp add: generate_ascii_username_rng loop_enter_frame)
      (simp add: draws_per_username_def loop_enter_settings numeral_3_eq_3 numeral_2_eq_2)
  show "case_var st2 = case_var st" "number_var st2 = number_var st" "tree st2 = tree st"
    unfolding st2_def
    by (simp_all add: generate_ascii_username_settings generate_ascii_username_tree
        loop_enter_settings loop_enter_frame)
qed

lemma drawn_shift:
  assumes "rng st2 = (\<lambda>j. rng st (j + draws_per_username st))"
    and "case_var st2 = case_var st" and "number_var st2 = number_var st"
  shows "drawn_language st2 k = drawn_language st (Suc k)"
    and "drawn_username U wn st2 k = drawn_username U wn st (Suc k)"
    and "drawn_row U wn st2 k = drawn_row U wn st (Suc k)"
proof -
  have d: "draws_per_username st2 = draws_per_username st"
    using assms(3) by (simp add: draws_per_username_def)
  show l: "drawn_language st2 k = drawn_language st (Suc k)"
    by (simp add: drawn_language_def d assms(1) add.commute)
  have "fst (finalize_username U w (st2\<lparr>rng := \<lambda>i. rng st2 (k * draws_per_username st + 2 + i)\<rparr>))
      = fst (finalize_username U w
               (st\<lparr>rng := \<lambda>i. rng st (Suc k * draws_per_username st + 2 + i)\<rparr>))" for w
    by (rule finalize_username_fst_cong) (simp_all add: assms ac_simps)
  then show u: "drawn_username U wn st2 k = drawn_username U wn st (Suc k)"
    by (simp add: drawn_username_def Let_def d l assms(1) ac_simps)
  show "drawn_row U wn st2 k = drawn_row U wn st (Suc k)"
    by (simp add: drawn_row_def l u)
qed

lemma drawn_language_0:
  "drawn_language st 0 = language_codes ! (rng st 0 mod length language_codes)"
  by (simp add: drawn_language_def)

lemma generate_loop_run:
  assumes "\<forall>k < length idx. valid_words U wn (drawn_language st k) \<noteq> []"
  shows "\<exists>st'. generate_loop U wn total_n idx usernames st =
           (Inr (usernames @ map (drawn_row U wn st) [0..<length idx]), st')
         \<and> tree st' = tree st"
  using assms
proof (induction idx arbitrary: usernames st)
  case Nil
  then show ?case by simp
next
  case (Cons i rest)
  let ?lang = "drawn_language st 0"
  let ?r = "generate_ascii_username U wn ?lang (loop_enter i total_n st)"
  from Cons.prems have v: "valid_words U wn ?lang \<noteq> []"
    by auto
  note s = loop_step_state [OF v, of i total_n]
  note sh = drawn_shift [OF s(1-3)]
  have "\<forall>k < length rest. valid_words U wn (drawn_language (snd ?r) k) \<noteq> []"
    using Cons.prems by (auto simp: sh)
  from Cons.IH [OF this, of "usernames @ [drawn_row U wn st 0]"]
  obtain st' where
    g: "generate_loop U wn total_n rest (usernames @ [drawn_row U wn st 0]) (snd ?r) =
          (Inr ((usernames @ [drawn_row U wn st 0])
                @ map (drawn_row U wn (snd ?r)) [0..<length rest]), st')"
    and t: "tree st' = tree (snd ?r)"
    by blast
  have m: "map (drawn_row U wn st) [0..<length (i # rest)] =
           drawn_row U wn st 0 # map (drawn_row U wn (snd ?r)) [0..<length rest]"
    by (simp add: upt_conv_Cons map_Suc_upt [symmetric] sh del: upt_Suc)
  have "generate_loop U wn total_n (i # rest) usernames st =
          (Inr (usernames @ map (drawn_row U wn st) [0..<length (i # rest)]), st')"
    using g
    by (simp only: generate_loop_Cons Let_def drawn_language_0 [symmetric]
        loop_step_username [OF v] sum.case m drawn_row_def [of U wn st 0, symmetric])
      simp
  with t s(4) show ?case by auto
qed

lemma generate_loop_fails:
  assumes "k < length idx" and "valid_words U wn (drawn_language st k) = []"
  shows "fst (generate_loop U wn total_n idx usernames st) = Inl IndexError"
  using assms
proof (induction idx arbitrary: k usernames st)
  case Nil
  then show ?case by simp
next
  case (Cons i rest)
  let ?lang = "drawn_language st 0"
  let ?r = "generate_ascii_username U wn ?lang (loop_enter i total_n st)"
  show ?case
  proof (cases "valid_words U wn ?lang = []")
    case True
    then show ?thesis
      by (intro generate_loop_raises) (simp add: drawn_language_0)
  next
    case False
    note s = loop_step_state [OF False, of i total_n]
    note sh = drawn_shift [OF s(1-3)]
    from False Cons.prems obtain j where j: "k = Suc j"
      by (cases k) auto
    with Cons.prems have "j < length rest" "valid_words U wn (drawn_language (snd ?r) j) = []"
      by (simp_all add: sh)
    from Cons.IH [OF this]
    show ?thesis
      by (simp only: generate_loop_Cons Let_def drawn_language_0 [symmetric]
          loop_step_username [OF False] sum.case)
  qed
qed

lemma generate_loop_keeps_tree:
  "tree (snd (generate_loop U wn total_n idx usernames st)) = tree st"
proof (induction idx arbitrary: usernames st)
  case Nil
  then show ?case by simp
next
  case (Cons i rest)
  let ?lang = "language_codes ! (rng st 0 mod length language_codes)"
  let ?r = "generate_ascii_username U wn ?lang (loop_enter i total_n st)"
  have t: "tree (snd ?r) = tree st"
    by (simp add: generate_ascii_username_tree loop_enter_frame)
  show ?case
  proof (cases "fst ?r")
    case (Inl e)
    then show ?thesis by (simp add: generate_loop_Cons Let_def t)
  next
    case (Inr username)
    then show ?thesis by (simp add: generate_loop_Cons Let_def t Cons.IH)
  qed
qed

lemma batch_enter_frame:
  "rng (batch_enter st) = rng st" "case_var (batch_enter st) = case_var st"
  "number_var (batch_enter st) = number_var st" "tree (batch_enter st) = []"
  by (simp_all add: batch_enter_def log_output_insert_def log_record_def Let_def)

lemma drawn_batch_enter:
  "drawn_language (batch_enter st) k = drawn_language st k"
  "drawn_row U wn (batch_enter st) k = drawn_row U wn st k"
proof -
  have d: "draws_per_username (batch_enter st) = draws_per_username st"
    by (simp add: draws_per_username_def batch_enter_frame)
  show l: "drawn_language (batch_enter st) k = drawn_language st k"
    by (simp add: drawn_language_def d batch_enter_frame)
  have "fst (finalize_username U w
               ((batch_enter st)\<lparr>rng := \<lambda>i. rng st (k * draws_per_username st + 2 + i)\<rparr>))
      = fst (finalize_username U w (st\<lparr>rng := \<lambda>i. rng st (k * draws_per_username st + 2 + i)\<rparr>))"
    for w
    by (rule finalize_username_fst_cong) (simp_all add: batch_enter_frame)
  then show "drawn_row U wn (batch_enter st) k = drawn_row U wn st k"
    by (simp add: drawn_row_def drawn_username_def Let_def l d batch_enter_frame)
qed

lemma generate_usernames_fails:
  assumes "k < 40" and "valid_words U wn (drawn_language st k) = []"
  shows "fst (generate_usernames U wn st) = Inl IndexError"
    and "tree (snd (generate_usernames U wn st)) = []"
proof -
  have f: "fst (generate_loop U wn 40 [0..<40] [] (batch_enter st)) = Inl IndexError"
    using assms by (intro generate_loop_fails [of k]) (simp_all add: drawn_batch_enter)
  then show "fst (generate_usernames U wn st) = Inl IndexError"
    by (simp add: generate_usernames_fst batch_enter_def)
  obtain r st4 where g: "generate_loop U wn 40 [0..<40] [] (batch_enter st) = (r, st4)"
    by fastforce
  with f have r: "r = Inl IndexError" by simp
  have "tree st4 = []"
    using generate_loop_keeps_tree [of U wn 40 "[0..<40]" "[]" "batch_enter st"] g
    by (simp add: batch_enter_frame)
  then show "tree (snd (generate_usernames U wn st)) = []"
    using g r by (simp add: generate_usernames_def Let_def batch_enter_def)
qed

lemma generate_usernames_rows:
  assumes "\<forall>k < 40. valid_words U wn (drawn_language st k) \<noteq> []"
  shows "fst (generate_usernames U wn st) = Inr ()"
    and "tree (snd (generate_usernames U wn st)) = sort_key fst (map (drawn_row U wn st) [0..<40])"
proof -
  have "\<forall>k < length [0..<40::nat]. valid_words U wn (drawn_language (batch_enter st) k) \<noteq> []"
    using assms by (simp add: drawn_batch_enter)
  from generate_loop_run [OF this, of 40 "[]"]
  obtain st4 where
    g: "generate_loop U wn 40 [0..<40] [] (batch_enter st) =
          (Inr (map (drawn_row U wn st) [0..<40]), st4)"
    and t: "tree st4 = []"
    by (auto simp: drawn_batch_enter batch_enter_frame)
  from g show "fst (generate_usernames U wn st) = Inr ()"
    by (simp add: generate_usernames_fst batch_enter_def)
  from g t show
    "tree (snd (generate_usernames U wn st)) = sort_key fst (map (drawn_row U wn st) [0..<40])"
    by (simp add: generate_usernames_def Let_def batch_enter_def log_output_insert_def
        log_record_def)
qed

lemma log_record_frame:
  "LOGGER (log_record lvl msg st) = LOGGER st @ [(lvl, msg)]"
  "log_output (log_record lvl msg st)
     = log_output st @ [clock st 0 @ lit '' - '' @ levelname lvl @ lit '' - '' @ msg @ [10]]"
  "log_file (log_record lvl msg st)
     = log_file st @ [clock st 0 @ lit '' - '' @ logger_name st @ lit '' - '' @ levelname lvl
                      @ lit '' - '' @ msg @ [10]]"
  "stdout (log_record lvl msg st)
     = (if lvl = DEBUG then stdout st else stdout st @ [levelname lvl @ lit '' - '' @ msg @ [10]])"
  "tree (log_record lvl msg st) = tree st"
  "case_var (log_record lvl msg st) = case_var st"
  "number_var (log_record lvl msg st) = number_var st"
  "rng (log_record lvl msg st) = rng st"
  by (simp_all add: log_record_def Let_def)

section \<open>The word filter\<close>

text \<open>
  C2. For every word and every integer \<open>min_len\<close>, \<open>is_valid_word\<close> is true exactly when
  every character of the word has a code point below 128 and the word has at least
  \<open>min_len\<close> characters; so it is false when some code point is 128 or more, and false
  when the word is shorter than \<open>min_len\<close>. The callers pass the default 3.
\<close>

theorem is_valid_word_iff:
  "(is_valid_word word min_len \<longleftrightarrow> (\<forall>c \<in> set word. c < 128) \<and> min_len \<le> int (length word))
   \<and> ((\<exists>c \<in> set word. c \<ge> 128) \<longrightarrow> \<not> is_valid_word word min_len)
   \<and> (int (length word) < min_len \<longrightarrow> \<not> is_valid_word word min_len)"
  by (fastforce simp: is_valid_word_def list_all_iff)

theorem is_valid_word_iff_witness:
  "is_valid_word (lit ''hello'') 3
   \<and> int (length (lit ''hi'')) < 3 \<and> \<not> is_valid_word (lit ''hi'') 3
   \<and> (233::nat) \<in> set (lit ''caf'' @ [233]) \<and> (233::nat) \<ge> 128
   \<and> \<not> is_valid_word (lit ''caf'' @ [233]) 3"
  using is_valid_word_iff [of "lit ''hello''" 3] is_valid_word_iff [of "lit ''hi''" 3]
    is_valid_word_iff [of "lit ''caf'' @ [233]" 3]
  by (simp add: lit_def)

section \<open>The formatter\<close>

text \<open>
  C4. The digits come after the case transform and follow it directly. With number style
  \<open>none\<close> the result is the transformed word; with \<open>1digit\<close> one decimal digit follows,
  the draw \<open>n\<close> between 0 and 9; with \<open>2digit\<close> two digits follow, tens and units of a
  draw between 0 and 99; with \<open>3digit\<close> three digits follow, hundreds, tens and units of
  a draw between 0 and 999. Code point \<open>48 + d\<close> is the digit \<open>d\<close>.
\<close>

theorem finalize_username_suffix:
  "(number_var st = lit ''none'' \<longrightarrow>
      fst (finalize_username U word st) = case_transform U (case_var st) word)
   \<and> (number_var st = lit ''1digit'' \<longrightarrow>
      (\<exists>n. n = rng st 0 mod 10 \<and> n \<le> 9 \<and>
         fst (finalize_username U word st) = case_transform U (case_var st) word @ [48 + n]))
   \<and> (number_var st = lit ''2digit'' \<longrightarrow>
      (\<exists>n. n = rng st 0 mod 100 \<and> n \<le> 99 \<and>
         fst (finalize_username U word st) =
           case_transform U (case_var st) word @ [48 + n div 10, 48 + n mod 10]))
   \<and> (number_var st = lit ''3digit'' \<longrightarrow>
      (\<exists>n. n = rng st 0 mod 1000 \<and> n \<le> 999 \<and>
         fst (finalize_username U word st) =
           case_transform U (case_var st) word
             @ [48 + n div 100, 48 + n div 10 mod 10, 48 + n mod 10]))"
proof -
  have "rng st 0 mod 10 \<le> 9" "rng st 0 mod 100 \<le> 99" "rng st 0 mod 1000 \<le> 999"
    by simp_all
  then show ?thesis
    using lit_styles by (simp add: finalize_username_eq Let_def)
qed

theorem finalize_username_suffix_witness:
  "fst (finalize_username example_db (lit ''wolf'') (world_of (lit ''uppercase'') (lit ''none'') (\<lambda>i. 7)))
     = lit ''WOLF''
   \<and> fst (finalize_username example_db (lit ''wolf'') (world_of (lit ''uppercase'') (lit ''1digit'') (\<lambda>i. 7)))
     = lit ''WOLF7''
   \<and> fst (finalize_username example_db (lit ''wolf'') (world_of (lit ''uppercase'') (lit ''2digit'') (\<lambda>i. 7)))
     = lit ''WOLF07''
   \<and> fst (finalize_username example_db (lit ''wolf'') (world_of (lit ''uppercase'') (lit ''3digit'') (\<lambda>i. 7)))
     = lit ''WOLF007''"
  using
    finalize_username_suffix [of "world_of (lit ''uppercase'') (lit ''none'') (\<lambda>i. 7)" example_db "lit ''wolf''"]
    finalize_username_suffix [of "world_of (lit ''uppercase'') (lit ''1digit'') (\<lambda>i. 7)" example_db "lit ''wolf''"]
    finalize_username_suffix [of "world_of (lit ''uppercase'') (lit ''2digit'') (\<lambda>i. 7)" example_db "lit ''wolf''"]
    finalize_username_suffix [of "world_of (lit ''uppercase'') (lit ''3digit'') (\<lambda>i. 7)" example_db "lit ''wolf''"]
  by (simp add: world_of_def case_transform_def py_upper_def is_ascii_def ascii_upper_def
      ascii_islower_def lit_def)

text \<open>
  C5 does not hold as stated for every word. The word of code point 454 followed by ungla
  is capitalized to code point 453 followed by ungla: its first character is the title
  case, where the upper case of code point 454 is 452.
\<close>

theorem capitalize_counterexample:
  "fst (finalize_username unicode_dz ([454] @ lit ''ungla'')
          (world_of (lit ''capitalize'') (lit ''none'') (\<lambda>i. 0)))
     = [453] @ lit ''ungla''
   \<and> py_upper unicode_dz [454] = [452]"
  by (simp add: finalize_username_eq Let_def world_of_def case_transform_def py_capitalize_def
      py_upper_def is_ascii_def unicode_dz_def dz_title_def dz_lower_def dz_upper_def
      ascii_lower_def ascii_isupper_def lit_def)

text \<open>
  C5, as amended. On an ASCII word, so on every word that passes the filter, \<open>capitalize\<close>
  gives the first character in upper case and the rest in lower case, \<open>lowercase\<close> maps
  every character to lower case and \<open>uppercase\<close> every character to upper case, where
  the upper case of a letter a to z is the code point 32 below and the lower case of a
  letter A to Z the code point 32 above. On any word the three styles give
  \<^verbatim>\<open>word.capitalize()\<close>, \<^verbatim>\<open>word.lower()\<close> and \<^verbatim>\<open>word.upper()\<close>, and any other value of the
  case style leaves the word as it is. What follows the transformed word is the digit
  suffix, empty for number style \<open>none\<close>, so that with \<open>uppercase\<close> and \<open>none\<close> the result is
  \<^verbatim>\<open>word.upper()\<close>.
\<close>

theorem finalize_username_case_style:
  "(is_ascii word \<longrightarrow>
      (case_var st = lit ''capitalize'' \<longrightarrow>
         (\<exists>sfx. fst (finalize_username U word st)
                  = (case word of [] \<Rightarrow> [] | c # cs \<Rightarrow> ascii_upper c # map ascii_lower cs) @ sfx
                \<and> (number_var st = lit ''none'' \<longrightarrow> sfx = [])))
      \<and> (case_var st = lit ''lowercase'' \<longrightarrow>
         (\<exists>sfx. fst (finalize_username U word st) = map ascii_lower word @ sfx
                \<and> (number_var st = lit ''none'' \<longrightarrow> sfx = [])))
      \<and> (case_var st = lit ''uppercase'' \<longrightarrow>
         (\<exists>sfx. fst (finalize_username U word st) = map ascii_upper word @ sfx
                \<and> (number_var st = lit ''none'' \<longrightarrow> sfx = []))))
   \<and> (case_var st = lit ''capitalize'' \<longrightarrow>
      (\<exists>sfx. fst (finalize_username U word st) = py_capitalize U word @ sfx
             \<and> (number_var st = lit ''none'' \<longrightarrow> sfx = [])))
   \<and> (case_var st = lit ''lowercase'' \<longrightarrow>
      (\<exists>sfx. fst (finalize_username U word st) = py_lower U word @ sfx
             \<and> (number_var st = lit ''none'' \<longrightarrow> sfx = [])))
   \<and> (case_var st = lit ''uppercase'' \<longrightarrow>
      (\<exists>sfx. fst (finalize_username U word st) = py_upper U word @ sfx
             \<and> (number_var st = lit ''none'' \<longrightarrow> sfx = []))
      \<and> (number_var st = lit ''none'' \<longrightarrow> fst (finalize_username U word st) = py_upper U word))
   \<and> (case_var st \<noteq> lit ''capitalize'' \<and> case_var st \<noteq> lit ''lowercase''
        \<and> case_var st \<noteq> lit ''uppercase'' \<longrightarrow>
      (\<exists>sfx. fst (finalize_username U word st) = word @ sfx
             \<and> (number_var st = lit ''none'' \<longrightarrow> sfx = [])))
   \<and> (\<forall>c. ascii_upper c = (if 97 \<le> c \<and> c \<le> 122 then c - 32 else c)
          \<and> ascii_lower c = (if 65 \<le> c \<and> c \<le> 90 then c + 32 else c))"
  using lit_styles
  by (simp add: finalize_username_eq Let_def case_transform_def py_capitalize_def py_lower_def
      py_upper_def ascii_upper_def ascii_lower_def ascii_islower_def ascii_isupper_def)

theorem finalize_username_case_style_witness:
  "is_ascii (lit ''wOLf'')
   \<and> fst (finalize_username example_db (lit ''wOLf'') (world_of (lit ''capitalize'') (lit ''none'') (\<lambda>i. 7)))
     = lit ''Wolf''
   \<and> fst (finalize_username example_db (lit ''wOLf'') (world_of (lit ''lowercase'') (lit ''none'') (\<lambda>i. 7)))
     = lit ''wolf''
   \<and> fst (finalize_username example_db (lit ''wOLf'') (world_of (lit ''uppercase'') (lit ''none'') (\<lambda>i. 7)))
     = lit ''WOLF''
   \<and> fst (finalize_username example_db (lit ''wOLf'') (world_of (lit ''Title'') (lit ''none'') (\<lambda>i. 7)))
     = lit ''wOLf''"
  using
    finalize_username_case_style [of "lit ''wOLf''" "world_of (lit ''capitalize'') (lit ''none'') (\<lambda>i. 7)" example_db]
    finalize_username_case_style [of "lit ''wOLf''" "world_of (lit ''lowercase'') (lit ''none'') (\<lambda>i. 7)" example_db]
    finalize_username_case_style [of "lit ''wOLf''" "world_of (lit ''uppercase'') (lit ''none'') (\<lambda>i. 7)" example_db]
    finalize_username_case_style [of "lit ''wOLf''" "world_of (lit ''Title'') (lit ''none'') (\<lambda>i. 7)" example_db]
  by (simp add: world_of_def is_ascii_def lit_def)

text \<open>
  C6. The formatted username of a word that passes the filter has only code points below
  128, and so has every username that \<open>generate_ascii_username\<close> returns.
\<close>

theorem username_is_ascii:
  "(is_valid_word word min_len \<longrightarrow> (\<forall>c \<in> set (fst (finalize_username U word st)). c < 128))
   \<and> (fst (generate_ascii_username U wn lang_code st) = Inr username \<longrightarrow>
        (\<forall>c \<in> set username. c < 128))"
proof -
  have f: "list_all (\<lambda>c. c < 128) (fst (finalize_username U w s))" if "is_ascii w" for w s
    using that
    by (intro finalize_username_pres) (simp_all add: is_ascii_def ascii_lower_less ascii_upper_less)
  have "is_valid_word word min_len \<longrightarrow> is_ascii word"
    by (simp add: is_valid_word_def is_ascii_def)
  moreover have "\<forall>c \<in> set username. c < 128"
    if "fst (generate_ascii_username U wn lang_code st) = Inr username"
  proof -
    from generate_ascii_username_Inr [OF that] obtain w s
      where "w \<in> set (valid_words U wn lang_code)" "username = fst (finalize_username U w s)"
      by blast
    then show ?thesis
      using f [of w s] valid_words_props(1) [of w U wn lang_code] by (simp add: list_all_iff)
  qed
  ultimately show ?thesis
    using f [of word st] by (auto simp: list_all_iff)
qed

theorem username_is_ascii_witness:
  "is_valid_word (lit ''wolf'') 3
   \<and> list_all (\<lambda>c. c < 128)
        (fst (finalize_username example_db (lit ''wolf'')
               (world_of (lit ''capitalize'') (lit ''3digit'') (\<lambda>i. 42))))
   \<and> fst (generate_ascii_username example_db wn_english_only (lit ''eng'')
            (world_of (lit ''uppercase'') (lit ''2digit'') (\<lambda>i. 0))) = Inr (lit ''CAT00'')
   \<and> list_all (\<lambda>c. c < 128) (lit ''CAT00'')"
proof -
  let ?st = "world_of (lit ''uppercase'') (lit ''2digit'') (\<lambda>i. 0)"
  have v: "is_valid_word (lit ''wolf'') 3"
    by (simp add: is_valid_word_def lit_def)
  have g: "fst (generate_ascii_username example_db wn_english_only (lit ''eng'') ?st)
             = Inr (lit ''CAT00'')"
    using valid_words_english_only
    by (simp add: generate_ascii_username_unfold Let_def
        finalize_username_eq get_words_frame next_draw_def world_of_def case_transform_def
        py_upper_def is_ascii_def ascii_upper_def ascii_islower_def lit_def)
  show ?thesis
    using v g
      username_is_ascii [of "lit ''wolf''" 3 example_db
        "world_of (lit ''capitalize'') (lit ''3digit'') (\<lambda>i. 42)"]
      username_is_ascii [of _ _ example_db ?st wn_english_only "lit ''eng''" "lit ''CAT00''"]
    by (simp add: list_all_iff)
qed

text \<open>
  C9. The filter is a function of the word and the minimum length alone. The username
  that the formatter returns depends on the word, the case style, the number style and
  the next draw of the random source only, whatever the rest of the state is; and the
  formatter leaves the state as it was, but for the one draw it consumes when digits
  are appended.
\<close>

theorem filter_and_formatter_pure:
  "(word = word' \<and> min_len = min_len' \<longrightarrow>
      is_valid_word word min_len = is_valid_word word' min_len')
   \<and> (case_var st = case_var st' \<and> number_var st = number_var st' \<and> rng st 0 = rng st' 0 \<longrightarrow>
        fst (finalize_username U word st) = fst (finalize_username U word st'))
   \<and> snd (finalize_username U word st)
       = (if number_var st = lit ''1digit'' \<or> number_var st = lit ''2digit''
             \<or> number_var st = lit ''3digit''
          then st\<lparr>rng := \<lambda>i. rng st (Suc i)\<rparr> else st)"
  by (simp add: finalize_username_eq Let_def next_draw_def)

theorem filter_and_formatter_pure_witness:
  "fst (finalize_username example_db (lit ''wolf'')
          \<lparr>case_var = lit ''uppercase'', number_var = lit ''2digit'', tree = [],
           log_output = [], LOGGER = [], rng = (\<lambda>i. 7 + i), log_file = [], stdout = [],
           clock = (\<lambda>i. lit ''12:00''), logger_name = lit ''__main__''\<rparr>)
   = fst (finalize_username example_db (lit ''wolf'')
          \<lparr>case_var = lit ''uppercase'', number_var = lit ''2digit'',
           tree = [(lit ''cat'', lit ''English'')], log_output = [lit ''x''],
           LOGGER = [(INFO, lit ''y'')], rng = (\<lambda>i. 7 + 3 * i), log_file = [lit ''z''],
           stdout = [lit ''y''], clock = (\<lambda>i. lit ''13:00''), logger_name = lit ''__main__''\<rparr>)
   \<and> is_valid_word (lit ''wolf'') 3 = is_valid_word (lit ''wolf'') 3"
  using filter_and_formatter_pure [of "lit ''wolf''" "lit ''wolf''" 3 3
      "\<lparr>case_var = lit ''uppercase'', number_var = lit ''2digit'', tree = [],
           log_output = [], LOGGER = [], rng = (\<lambda>i. 7 + i), log_file = [], stdout = [],
           clock = (\<lambda>i. lit ''12:00''), logger_name = lit ''__main__''\<rparr>"
      "\<lparr>case_var = lit ''uppercase'', number_var = lit ''2digit'',
           tree = [(lit ''cat'', lit ''English'')], log_output = [lit ''x''],
           LOGGER = [(INFO, lit ''y'')], rng = (\<lambda>i. 7 + 3 * i), log_file = [lit ''z''],
           stdout = [lit ''y''], clock = (\<lambda>i. lit ''13:00''), logger_name = lit ''__main__''\<rparr>" example_db]
  by simp

section \<open>The batch\<close>

text \<open>
  C1 does not hold as stated. With words for English only and Spanish drawn first, the batch
  ends in \<^verbatim>\<open>IndexError\<close> although the next draw would have chosen English: nothing is
  retried. With no words in any language the failure is the same \<^verbatim>\<open>IndexError\<close> of the
  empty choice.
\<close>

theorem no_retry_counterexample:
  "valid_words example_db wn_english_only (lit ''eng'') = [lit ''cat'', lit ''wolf'']
   \<and> fst (generate_usernames example_db wn_english_only
            (world_of (lit ''lowercase'') (lit ''none'') (\<lambda>i. if i = 0 then 1 else 0)))
       = Inl IndexError
   \<and> fst (generate_usernames example_db []
            (world_of (lit ''lowercase'') (lit ''none'') (\<lambda>i. 0)))
       = Inl IndexError"
proof -
  have "lit ''spa'' \<noteq> lit ''eng''"
    by (simp add: lit_def)
  then have "fst (generate_usernames example_db wn_english_only
            (world_of (lit ''lowercase'') (lit ''none'') (\<lambda>i. if i = 0 then 1 else 0)))
       = Inl IndexError"
    by (intro generate_usernames_raises)
      (simp add: world_of_def language_codes_nth valid_words_english_only_other)
  moreover have "fst (generate_usernames example_db []
            (world_of (lit ''lowercase'') (lit ''none'') (\<lambda>i. 0))) = Inl IndexError"
    by (intro generate_usernames_raises) (simp add: valid_words_def)
  ultimately show ?thesis
    by (simp add: valid_words_english_only)
qed

text \<open>
  C1, as amended. When the valid words of the chosen language are empty, the draw raises
  \<^verbatim>\<open>IndexError\<close>, the failure of \<^verbatim>\<open>random.choice\<close> on an empty list. Nothing catches it
  and nothing is retried: the batch fails with it as soon as one of its 40 draws chooses
  such a language, whichever draw it is, and the tree view stays empty; so it fails for
  every random source when no configured language has a valid word. The batch fails in
  no other way.
\<close>

theorem empty_valid_words_raise:
  "(valid_words U wn lang_code = [] \<longrightarrow>
      fst (generate_ascii_username U wn lang_code st) = Inl IndexError)
   \<and> ((\<exists>k < 40. valid_words U wn (drawn_language st k) = []) \<longrightarrow>
        fst (generate_usernames U wn st) = Inl IndexError
        \<and> tree (snd (generate_usernames U wn st)) = [])
   \<and> ((\<forall>lang_code \<in> set language_codes. valid_words U wn lang_code = []) \<longrightarrow>
        fst (generate_usernames U wn st) = Inl IndexError)
   \<and> (fst (generate_usernames U wn st) \<noteq> Inr () \<longrightarrow>
        (\<exists>k < 40. valid_words U wn (drawn_language st k) = []))"
proof -
  have "drawn_language st 0 \<in> set language_codes"
    by (simp add: drawn_language_def language_codes_nonempty)
  then have "valid_words U wn (drawn_language st 0) = []"
    if "\<forall>lang_code \<in> set language_codes. valid_words U wn lang_code = []"
    using that by blast
  then have a: "fst (generate_usernames U wn st) = Inl IndexError"
    if "\<forall>lang_code \<in> set language_codes. valid_words U wn lang_code = []"
    using that generate_usernames_fails(1) [of 0 U wn st] by simp
  have b: "\<exists>k < 40. valid_words U wn (drawn_language st k) = []"
    if "fst (generate_usernames U wn st) \<noteq> Inr ()"
    using that generate_usernames_rows(1) [of U wn st] by blast
  show ?thesis
    using a b generate_usernames_fails [of _ U wn st]
    by (auto simp: generate_ascii_username_unfold)
qed

theorem empty_valid_words_raise_witness:
  "drawn_language (world_of (lit ''lowercase'') (lit ''none'') (\<lambda>i. if i = 2 then 1 else 0)) 1
     = lit ''spa''
   \<and> valid_words example_db wn_english_only (lit ''spa'') = []
   \<and> fst (generate_ascii_username example_db wn_english_only (lit ''spa'')
            (world_of (lit ''lowercase'') (lit ''none'') (\<lambda>i. if i = 2 then 1 else 0)))
       = Inl IndexError
   \<and> fst (generate_usernames example_db wn_english_only
            (world_of (lit ''lowercase'') (lit ''none'') (\<lambda>i. if i = 2 then 1 else 0)))
       = Inl IndexError
   \<and> tree (snd (generate_usernames example_db wn_english_only
            (world_of (lit ''lowercase'') (lit ''none'') (\<lambda>i. if i = 2 then 1 else 0)))) = []"
proof -
  let ?st = "world_of (lit ''lowercase'') (lit ''none'') (\<lambda>i. if i = 2 then 1 else 0)"
  have d: "drawn_language ?st 1 = lit ''spa''"
    by (simp add: drawn_language_def draws_per_username_def world_of_def language_codes_nth
        lit_styles)
  have "lit ''spa'' \<noteq> lit ''eng''"
    by (simp add: lit_def)
  then have v: "valid_words example_db wn_english_only (lit ''spa'') = []"
    by (simp add: valid_words_english_only_other)
  with d have "\<exists>k < 40. valid_words example_db wn_english_only (drawn_language ?st k) = []"
    by (intro exI [of _ 1]) simp
  with d v show ?thesis
    using empty_valid_words_raise [of example_db wn_english_only "lit ''spa''" ?st]
    by simp
qed




section \<open>The word query\<close>

text \<open>
  C10. Every word that \<open>get_words\<close> returns satisfies \<^verbatim>\<open>isalnum\<close>: it is not empty and
  has no ASCII character that is not a letter or a digit, so no underscore (95), hyphen
  (45) or space (32). Every username that \<open>generate_ascii_username\<close> returns is made of
  ASCII letters and digits only.
\<close>

theorem get_words_alnum:
  "(\<forall>word \<in> set (fst (get_words U wn lang_code st)).
      py_isalnum U word \<and> word \<noteq> []
      \<and> (\<forall>c \<in> set word. c < 128 \<longrightarrow> ascii_isalnum c)
      \<and> 95 \<notin> set word \<and> 45 \<notin> set word \<and> 32 \<notin> set word)
   \<and> (fst (generate_ascii_username U wn lang_code st) = Inr username \<longrightarrow>
        (\<forall>c \<in> set username. ascii_isalnum c))"
proof -
  have "list_all (py_isalnum U) (snd (synset_loop U lang_code wn []))"
    by (rule synset_loop_alnum) simp
  then have a: "\<forall>word \<in> set (fst (get_words U wn lang_code st)). py_isalnum U word"
    by (simp add: get_words_fst list_all_iff)
  have b: "w \<noteq> [] \<and> (\<forall>c \<in> set w. c < 128 \<longrightarrow> ascii_isalnum c)
           \<and> 95 \<notin> set w \<and> 45 \<notin> set w \<and> 32 \<notin> set w" if "py_isalnum U w" for w
  proof -
    from that have n: "w \<noteq> []" and c: "\<forall>c \<in> set w. c < 128 \<longrightarrow> ascii_isalnum c"
      by (auto simp: py_isalnum_def list_all_iff)
    have "\<not> ascii_isalnum 95" "\<not> ascii_isalnum 45" "\<not> ascii_isalnum 32"
      by (simp_all add: ascii_isalnum_def ascii_isupper_def ascii_islower_def ascii_isdigit_def)
    with c have "95 \<notin> set w" "45 \<notin> set w" "32 \<notin> set w"
      by fastforce+
    with n c show ?thesis by blast
  qed
  have "\<forall>c \<in> set username. ascii_isalnum c"
    if "fst (generate_ascii_username U wn lang_code st) = Inr username"
  proof -
    from generate_ascii_username_Inr [OF that] obtain w s
      where w: "w \<in> set (valid_words U wn lang_code)"
        and u: "username = fst (finalize_username U w s)"
      by blast
    have "list_all ascii_isalnum (fst (finalize_username U w s))"
      using valid_words_props(1,2) [OF w]
      by (intro finalize_username_pres)
        (simp_all add: ascii_lower_isalnum ascii_upper_isalnum,
         simp add: ascii_isalnum_def ascii_isdigit_def)
    with u show ?thesis by (simp add: list_all_iff)
  qed
  with a b show ?thesis by blast
qed
theorem get_words_alnum_witness:
  "fst (get_words example_db wn_compound (lit ''eng'')
          (world_of (lit ''lowercase'') (lit ''none'') (\<lambda>i. 0))) = [lit ''cat'']
   \<and> py_isalnum example_db (lit ''cat'')
   \<and> fst (generate_ascii_username example_db wn_every_language (lit ''swe'')
            (world_of (lit ''capitalize'') (lit ''1digit'') (\<lambda>i. 0))) = Inr (lit ''Cat0'')
   \<and> list_all ascii_isalnum (lit ''Cat0'')"
proof -
  let ?st = "world_of (lit ''capitalize'') (lit ''1digit'') (\<lambda>i. 0)"
  have w: "fst (get_words example_db wn_compound (lit ''eng'')
          (world_of (lit ''lowercase'') (lit ''none'') (\<lambda>i. 0))) = [lit ''cat'']"
    by (simp add: get_words_fst wn_compound_def lemma_loop_eq py_isalnum_def
        ascii_isalnum_def ascii_isupper_def ascii_islower_def ascii_isdigit_def lit_def)
  have g: "fst (generate_ascii_username example_db wn_every_language (lit ''swe'') ?st)
             = Inr (lit ''Cat0'')"
    by (simp add: generate_ascii_username_unfold valid_words_every_language Let_def
        finalize_username_eq get_words_frame next_draw_def world_of_def case_transform_def
        py_capitalize_def is_ascii_def ascii_upper_def ascii_lower_def ascii_islower_def
        ascii_isupper_def lit_def)
  show ?thesis
    using w g
      get_words_alnum [of example_db wn_compound "lit ''eng''"
        "world_of (lit ''lowercase'') (lit ''none'') (\<lambda>i. 0)"]
      get_words_alnum [of example_db wn_every_language "lit ''swe''" ?st "lit ''Cat0''"]
    by (simp add: list_all_iff)
qed

section \<open>Failures of the lexical source\<close>

text \<open>
  C7 does not hold as stated. The lookup for English raises, the lookup for Spanish gives
  a valid word, and the batch whose first draw is English ends in \<^verbatim>\<open>IndexError\<close>: the
  failure leaves English without words and the empty choice ends the batch.
\<close>

theorem lookup_failure_counterexample:
  "fst (synset_loop example_db (lit ''eng'') wn_english_raises [])
     = Some (lit ''no such language'')
   \<and> valid_words example_db wn_english_raises (lit ''spa'') = [lit ''cat'']
   \<and> fst (generate_usernames example_db wn_english_raises
            (world_of (lit ''lowercase'') (lit ''none'') (\<lambda>i. 0)))
       = Inl IndexError"
proof -
  have "fst (generate_usernames example_db wn_english_raises
            (world_of (lit ''lowercase'') (lit ''none'') (\<lambda>i. 0))) = Inl IndexError"
    by (intro generate_usernames_raises)
      (simp add: world_of_def language_codes_nth valid_words_english_raises)
  moreover have "fst (synset_loop example_db (lit ''eng'') wn_english_raises [])
     = Some (lit ''no such language'')"
    by (simp add: wn_english_raises_def)
  ultimately show ?thesis
    by (simp add: valid_words_english_raises)
qed

text \<open>
  C7, as amended. When the iteration raises for a language, after steps that did not,
  \<open>get_words\<close> does not raise: it returns the alphanumeric lemma names gathered before
  the exception and logs one warning, which the handlers write to the log file, to
  \<^verbatim>\<open>stdout\<close> and to the log window. The tree view, the two settings and the random source
  are as before. When no step raises it returns all the names and the state is
  unchanged. The draw then goes on with the words returned, and gives a username
  whenever one of them passes the filter.
\<close>

theorem get_words_recovers:
  "((\<forall>x \<in> set pre. fails_with lang_code x = None) \<and> fails_with lang_code bad = Some exc \<longrightarrow>
      fst (get_words U (pre @ bad # post) lang_code st)
        = filter (py_isalnum U) (concat (map (names_in lang_code) pre))
      \<and> snd (get_words U (pre @ bad # post) lang_code st)
        = log_record WARNING (fetch_warning lang_code exc) st
      \<and> LOGGER (snd (get_words U (pre @ bad # post) lang_code st))
        = LOGGER st @ [(WARNING, fetch_warning lang_code exc)]
      \<and> log_output (snd (get_words U (pre @ bad # post) lang_code st))
        = log_output st
          @ [clock st 0 @ lit '' - WARNING - '' @ fetch_warning lang_code exc @ [10]]
      \<and> log_file (snd (get_words U (pre @ bad # post) lang_code st))
        = log_file st
          @ [clock st 0 @ lit '' - '' @ logger_name st @ lit '' - WARNING - ''
             @ fetch_warning lang_code exc @ [10]]
      \<and> stdout (snd (get_words U (pre @ bad # post) lang_code st))
        = stdout st @ [lit ''WARNING - '' @ fetch_warning lang_code exc @ [10]]
      \<and> tree (snd (get_words U (pre @ bad # post) lang_code st)) = tree st
      \<and> case_var (snd (get_words U (pre @ bad # post) lang_code st)) = case_var st
      \<and> number_var (snd (get_words U (pre @ bad # post) lang_code st)) = number_var st
      \<and> rng (snd (get_words U (pre @ bad # post) lang_code st)) = rng st)
   \<and> ((\<forall>x \<in> set wn. fails_with lang_code x = None) \<longrightarrow>
        get_words U wn lang_code st =
          (filter (py_isalnum U) (concat (map (names_in lang_code) wn)), st))
   \<and> (filter (\<lambda>word. is_valid_word word 3) (fst (get_words U wn lang_code st)) \<noteq> [] \<longrightarrow>
        (\<exists>username. fst (generate_ascii_username U wn lang_code st) = Inr username))"
proof -
  have "\<exists>username. fst (generate_ascii_username U wn lang_code st) = Inr username"
    if "filter (\<lambda>word. is_valid_word word 3) (fst (get_words U wn lang_code st)) \<noteq> []"
    using that by (simp add: generate_ascii_username_unfold Let_def valid_words_def get_words_fst)
  moreover have "lit '' - '' @ levelname WARNING @ lit '' - '' = lit '' - WARNING - ''"
    "levelname WARNING @ lit '' - '' = lit ''WARNING - ''"
    by (simp_all add: lit_def)
  ultimately show ?thesis
    using get_words_fails [of pre lang_code bad exc U post st]
      get_words_succeeds [of wn lang_code U st]
    by (auto simp: log_record_frame)
qed

theorem get_words_recovers_witness:
  "fails_with (lit ''eng'') (Inr (\<lambda>lang_code. Inr [lit ''wolf''])) = None
   \<and> fails_with (lit ''eng'') (Inl (lit ''corpus unreadable'')) = Some (lit ''corpus unreadable'')
   \<and> fst (get_words example_db wn_breaks_midway (lit ''eng'')
        (world_of (lit ''lowercase'') (lit ''none'') (\<lambda>i. 0))) = [lit ''wolf'']
   \<and> log_output (snd (get_words example_db wn_breaks_midway (lit ''eng'')
        (world_of (lit ''lowercase'') (lit ''none'') (\<lambda>i. 0))))
      = [lit ''12:00:00 - WARNING - Failed to fetch words for '' @ [39] @ lit ''eng'' @ [39]
         @ lit '': corpus unreadable'' @ [10]]
   \<and> fst (generate_ascii_username example_db wn_breaks_midway (lit ''eng'')
        (world_of (lit ''lowercase'') (lit ''none'') (\<lambda>i. 0))) = Inr (lit ''wolf'')"
proof -
  let ?st = "world_of (lit ''lowercase'') (lit ''none'') (\<lambda>i. 0)"
  let ?s = "Inr (\<lambda>lang_code. Inr [lit ''wolf'']) :: pystr + synset"
  let ?b = "Inl (lit ''corpus unreadable'') :: pystr + synset"
  let ?p = "[Inr (\<lambda>lang_code. Inr [lit ''cat''])] :: wordnet"
  have f: "fails_with (lit ''eng'') ?s = None"
    "fails_with (lit ''eng'') ?b = Some (lit ''corpus unreadable'')"
    by (simp_all add: fails_with_def)
  have a: "py_isalnum example_db (lit ''wolf'')" "is_valid_word (lit ''wolf'') 3"
    by (simp_all add: py_isalnum_def ascii_isalnum_def ascii_isupper_def ascii_islower_def
        ascii_isdigit_def is_valid_word_def lit_def)
  have w: "wn_breaks_midway = [?s] @ ?b # ?p"
    by (simp add: wn_breaks_midway_def)
  have c: "clock ?st 0 = lit ''12:00:00''" "log_output ?st = []"
    by (simp_all add: world_of_def py_str.simps lit_def)
  have h: "(\<forall>x \<in> set [?s]. fails_with (lit ''eng'') x = None)
           \<and> fails_with (lit ''eng'') ?b = Some (lit ''corpus unreadable'')"
    using f by simp
  note t = get_words_recovers
    [of "[?s]" "lit ''eng''" ?b "lit ''corpus unreadable''" example_db ?p ?st]
  from t h have g0: "fst (get_words example_db ([?s] @ ?b # ?p) (lit ''eng'') ?st)
      = filter (py_isalnum example_db) (concat (map (names_in (lit ''eng'')) [?s]))"
    by blast
  from t h have l0: "log_output (snd (get_words example_db ([?s] @ ?b # ?p) (lit ''eng'') ?st))
      = log_output ?st
        @ [clock ?st 0 @ lit '' - WARNING - ''
           @ fetch_warning (lit ''eng'') (lit ''corpus unreadable'') @ [10]]"
    by blast
  have g: "fst (get_words example_db wn_breaks_midway (lit ''eng'') ?st) = [lit ''wolf'']"
    using g0 a by (simp add: w names_in_def)
  have l: "log_output (snd (get_words example_db wn_breaks_midway (lit ''eng'') ?st))
      = [lit ''12:00:00 - WARNING - Failed to fetch words for '' @ [39] @ lit ''eng'' @ [39]
         @ lit '': corpus unreadable'' @ [10]]"
    using l0 by (simp add: w c fetch_warning_def) (simp add: lit_def)
  have "fst (generate_ascii_username example_db wn_breaks_midway (lit ''eng'') ?st)
          = Inr (lit ''wolf'')"
  proof -
    have "snd (synset_loop example_db (lit ''eng'') wn_breaks_midway []) = [lit ''wolf'']"
      using g by (simp add: get_words_fst)
    then have "valid_words example_db wn_breaks_midway (lit ''eng'') = [lit ''wolf'']"
      using a by (simp add: valid_words_def)
    then show ?thesis
      by (simp add: generate_ascii_username_unfold Let_def finalize_username_eq
          get_words_frame next_draw_def world_of_def case_transform_def py_lower_def is_ascii_def
          ascii_lower_def ascii_isupper_def lit_def)
  qed
  with f g l show ?thesis by simp
qed

section \<open>The language table is complete\<close>

text \<open>
  C8. The table has 19 entries with distinct keys, the codes drawn from are its keys in
  order, and for every state of the random source the code that the batch draws is a key
  of the table: its lookup finds a display name and does not fall back on the code.
\<close>

theorem language_table:
  "length language_names = 19
   \<and> distinct (map fst language_names)
   \<and> language_codes = map fst language_names
   \<and> (\<exists>lang_code name.
         fst (choice language_codes st) = Inr lang_code
         \<and> lang_code \<in> fst ` set language_names
         \<and> map_of language_names lang_code = Some name
         \<and> dict_get language_names lang_code lang_code = name)"
proof -
  have l: "length language_names = 19"
    by (simp add: language_names_def)
  have d: "distinct (map fst language_names)"
    by (simp add: language_names_def lit_def)
  let ?c = "language_codes ! (rng st 0 mod length language_codes)"
  have c: "fst (choice language_codes st) = Inr ?c"
    by (simp add: choice_nonempty language_codes_nonempty)
  have "?c \<in> set language_codes"
    by (simp add: language_codes_nonempty)
  then have m: "?c \<in> fst ` set language_names"
    by (simp add: language_codes_def)
  then obtain name where n: "map_of language_names ?c = Some name"
    by (meson map_of_eq_None_iff not_Some_eq)
  then have "dict_get language_names ?c ?c = name"
    by (simp add: dict_get_def)
  with l d c m n show ?thesis
    by (simp only: language_codes_def) blast
qed

end
